theory Spec2Isabelle
  imports Complex_Main "HOL-Library.Multiset"
begin

section \<open>Pairwise ELO engine (src/services/eloService.ts)\<close>

text \<open>
  TypeScript \<open>number\<close> values that take part in rating arithmetic are modelled as
  \<open>real\<close>: the rounding of intermediate IEEE-754 results is abstracted away, every
  other step follows the source. Row identifiers are natural numbers (SQLite
  AUTOINCREMENT keys), guess counts are integers (the parser yields 1 to 7).
\<close>

record participant =
  playerId :: nat
  currentElo :: real
  guessCount :: int

record EloConfig =
  kFactor :: real
  defaultRating :: real

definition calculateExpectedScore :: "real \<Rightarrow> real \<Rightarrow> real" where
  "calculateExpectedScore ratingA ratingB = 1 / (1 + 10 powr ((ratingB - ratingA) / 400))"

text \<open>\<open>Math.round\<close>: the nearest integer, a tie going towards plus infinity.\<close>

definition Math_round :: "real \<Rightarrow> real" where
  "Math_round x = of_int \<lfloor>x + 1 / 2\<rfloor>"

definition calculateNewRating :: "real \<Rightarrow> real \<Rightarrow> real \<Rightarrow> real \<Rightarrow> real" where
  "calculateNewRating currentRating expectedScore actualScore k =
     Math_round (currentRating + k * (actualScore - expectedScore))"

definition determineMatchResult :: "int \<Rightarrow> int \<Rightarrow> real \<times> real" where
  "determineMatchResult guessCount1 guessCount2 =
     (if guessCount1 < guessCount2 then (1, 0)
      else if guessCount1 > guessCount2 then (0, 1)
      else (1 / 2, 1 / 2))"

text \<open>
  The \<open>Map<number, number>\<close> of accumulated changes is a partial map;
  \<open>eloChanges.get(id) || 0\<close> reads it with 0 for a missing (or zero) entry.
\<close>

type_synonym changes = "nat \<rightharpoonup> real"

definition get_or0 :: "changes \<Rightarrow> nat \<Rightarrow> real" where
  "get_or0 m k = (case m k of None \<Rightarrow> 0 | Some v \<Rightarrow> v)"

text \<open>The first loop: every participant's entry is set to 0, in list order.\<close>

fun init_changes :: "participant list \<Rightarrow> changes \<Rightarrow> changes" where
  "init_changes [] m = m"
| "init_changes (p # ps) m = init_changes ps (m(playerId p \<mapsto> 0))"

text \<open>
  The body of the inner loop for one pair \<open>(player1, player2)\<close>: both expected scores,
  both changes, then the two \<open>set\<close> calls in the order of the source (the second reads
  the map the first one wrote).
\<close>

definition matchup :: "real \<Rightarrow> participant \<Rightarrow> participant \<Rightarrow> changes \<Rightarrow> changes" where
  "matchup scaledK player1 player2 m =
     (let (score1, score2) = determineMatchResult (guessCount player1) (guessCount player2);
          expected1 = calculateExpectedScore (currentElo player1) (currentElo player2);
          expected2 = calculateExpectedScore (currentElo player2) (currentElo player1);
          change1 = scaledK * (score1 - expected1);
          change2 = scaledK * (score2 - expected2);
          m1 = m(playerId player1 \<mapsto> get_or0 m (playerId player1) + change1)
      in m1(playerId player2 \<mapsto> get_or0 m1 (playerId player2) + change2))"

text \<open>The loop over \<open>j = i + 1 .. n - 1\<close> for a fixed \<open>i\<close>.\<close>

fun inner_loop :: "real \<Rightarrow> participant \<Rightarrow> participant list \<Rightarrow> changes \<Rightarrow> changes" where
  "inner_loop scaledK player1 [] m = m"
| "inner_loop scaledK player1 (player2 # rest) m =
     inner_loop scaledK player1 rest (matchup scaledK player1 player2 m)"

text \<open>The loop over \<open>i\<close>: participant \<open>i\<close> meets the participants after it.\<close>

fun outer_loop :: "real \<Rightarrow> participant list \<Rightarrow> changes \<Rightarrow> changes" where
  "outer_loop scaledK [] m = m"
| "outer_loop scaledK (player1 # rest) m =
     outer_loop scaledK rest (inner_loop scaledK player1 rest m)"

text \<open>The last loop rounds every entry of the map.\<close>

definition round_changes :: "changes \<Rightarrow> changes" where
  "round_changes m = (\<lambda>k. map_option Math_round (m k))"

definition calculatePairwiseElo :: "participant list \<Rightarrow> EloConfig \<Rightarrow> changes" where
  "calculatePairwiseElo participants config =
     (let eloChanges = init_changes participants Map.empty
      in if length participants < 2 then eloChanges
         else let scaledK = kFactor config / (real (length participants) - 1)
              in round_changes (outer_loop scaledK participants eloChanges))"

text \<open>A participant's final delta, as the callers read it: \<open>eloChanges.get(id) || 0\<close>.\<close>

definition delta_of :: "participant list \<Rightarrow> EloConfig \<Rightarrow> nat \<Rightarrow> real" where
  "delta_of participants config pid = get_or0 (calculatePairwiseElo participants config) pid"

section \<open>The persistent store (database/connection.ts, playerRepository.ts, gameRepository.ts)\<close>

text \<open>
  Each SQLite table is the list of its rows in insertion order. Columns that hold
  \<open>datetime('now')\<close> (created_at, updated_at, processed_at) are left out, as are the
  surrogate keys of \<open>elo_history\<close> and \<open>daily_summaries\<close>, which no statement reads.
  The rating columns are declared INTEGER; with SQLite's column affinity they keep any
  number they are given, so they are \<open>real\<close> like the values the engine computes.
  A statement that violates a UNIQUE constraint throws; thrown errors are values.
  Foreign keys are not checked: every player id the pipeline writes was fetched or
  created just before.
\<close>

datatype error = SqliteConstraintUnique | TypeErrorNull | RangeError

record Player =
  pl_id :: nat
  discordId :: string
  username :: string
  discriminator :: string
  elo :: real
  totalGames :: int
  totalWins :: int
  totalCrowns :: int
  totalGuesses :: int
  lastPlayed :: "string option"
  consecutiveInactiveDays :: int
  isActive :: bool

record CreatePlayerData =
  cp_discordId :: string
  cp_username :: string
  cp_discriminator :: string

record GameRecord =
  g_id :: nat
  g_playerId :: nat
  g_guessCount :: int
  g_gameDate :: string
  g_wordleNumber :: "int option"
  g_eloChange :: real
  g_eloBefore :: real
  g_eloAfter :: real

record EloHistoryRow =
  h_playerId :: nat
  h_elo :: real
  h_gameDate :: string

record DailySummaryRow =
  s_gameDate :: string
  s_wordleNumber :: "int option"
  s_participantsCount :: nat
  s_highestEloPlayerId :: "nat option"
  s_lowestEloPlayerId :: "nat option"

text \<open>
  \<open>players_seq\<close> and \<open>games_seq\<close> are the AUTOINCREMENT counters (the largest key
  ever handed out); a new key is one more than the larger of the counter and the keys
  in the table.
\<close>

record database =
  players :: "Player list"
  players_seq :: nat
  games :: "GameRecord list"
  games_seq :: nat
  elo_history :: "EloHistoryRow list"
  daily_summaries :: "DailySummaryRow list"

definition next_rowid :: "nat \<Rightarrow> nat list \<Rightarrow> nat" where
  "next_rowid seq ids = Suc (fold max ids seq)"

definition getPlayerByDiscordId :: "database \<Rightarrow> string \<Rightarrow> Player option" where
  "getPlayerByDiscordId db d = find (\<lambda>p. discordId p = d) (players db)"

definition getPlayerById :: "database \<Rightarrow> nat \<Rightarrow> Player option" where
  "getPlayerById db i = find (\<lambda>p. pl_id p = i) (players db)"

text \<open>
  \<open>createPlayer\<close>: the INSERT (the schema's defaults fill the other columns), then
  \<open>getPlayerById(lastInsertRowid)!\<close>; a null there is dereferenced by the caller.
\<close>

definition createPlayer :: "CreatePlayerData \<Rightarrow> real \<Rightarrow> database \<Rightarrow> (error + Player) \<times> database" where
  "createPlayer data defaultElo db =
     (if \<exists>p \<in> set (players db). discordId p = cp_discordId data
      then (Inl SqliteConstraintUnique, db)
      else let lastInsertRowid = next_rowid (players_seq db) (map pl_id (players db));
               row = \<lparr>pl_id = lastInsertRowid, discordId = cp_discordId data,
                      username = cp_username data, discriminator = cp_discriminator data,
                      elo = defaultElo, totalGames = 0, totalWins = 0, totalCrowns = 0,
                      totalGuesses = 0, lastPlayed = None, consecutiveInactiveDays = 0,
                      isActive = True\<rparr>;
               db' = db\<lparr>players := players db @ [row], players_seq := lastInsertRowid\<rparr>
           in (case getPlayerById db' lastInsertRowid of
                 None \<Rightarrow> Inl TypeErrorNull
               | Some p \<Rightarrow> Inr p, db'))"

definition updatePlayerUsername :: "nat \<Rightarrow> string \<Rightarrow> database \<Rightarrow> database" where
  "updatePlayerUsername pid name db =
     db\<lparr>players := map (\<lambda>p. if pl_id p = pid then p\<lparr>username := name\<rparr> else p) (players db)\<rparr>"

definition getOrCreatePlayer :: "CreatePlayerData \<Rightarrow> real \<Rightarrow> database \<Rightarrow> (error + Player) \<times> database" where
  "getOrCreatePlayer data defaultElo db =
     (case getPlayerByDiscordId db (cp_discordId data) of
        Some existing \<Rightarrow>
          if username existing \<noteq> cp_username data
          then (Inr (existing\<lparr>username := cp_username data\<rparr>),
                updatePlayerUsername (pl_id existing) (cp_username data) db)
          else (Inr existing, db)
      | None \<Rightarrow> createPlayer data defaultElo db)"

definition updatePlayerAfterGame :: "nat \<Rightarrow> int \<Rightarrow> real \<Rightarrow> string \<Rightarrow> bool \<Rightarrow> database \<Rightarrow> database" where
  "updatePlayerAfterGame pid guesses newRating gameDate hasCrown db =
     (let isWin = guesses \<le> 6
      in db\<lparr>players := map (\<lambda>p. if pl_id p = pid
                 then p\<lparr>elo := newRating,
                        totalGames := totalGames p + 1,
                        totalWins := totalWins p + (if isWin then 1 else 0),
                        totalCrowns := totalCrowns p + (if hasCrown then 1 else 0),
                        totalGuesses := totalGuesses p + guesses,
                        lastPlayed := Some gameDate,
                        consecutiveInactiveDays := 0,
                        isActive := True\<rparr>
                 else p) (players db)\<rparr>)"

definition getGameById :: "database \<Rightarrow> nat \<Rightarrow> GameRecord option" where
  "getGameById db i = find (\<lambda>g. g_id g = i) (games db)"

definition hasGameRecord :: "database \<Rightarrow> nat \<Rightarrow> string \<Rightarrow> bool" where
  "hasGameRecord db pid gameDate =
     (length (filter (\<lambda>g. g_playerId g = pid \<and> g_gameDate g = gameDate) (games db)) > 0)"

text \<open>
  \<open>recordGame\<close>: \<open>eloChange\<close> is computed from the two ratings, the row is inserted
  (UNIQUE(player_id, game_date) may reject it) and read back.
\<close>

definition recordGame ::
  "nat \<Rightarrow> int \<Rightarrow> string \<Rightarrow> real \<Rightarrow> real \<Rightarrow> int option \<Rightarrow> database \<Rightarrow> (error + GameRecord) \<times> database" where
  "recordGame pid guesses gameDate eloBefore eloAfter wordleNumber db =
     (let eloChange = eloAfter - eloBefore
      in if \<exists>g \<in> set (games db). g_playerId g = pid \<and> g_gameDate g = gameDate
         then (Inl SqliteConstraintUnique, db)
         else let lastInsertRowid = next_rowid (games_seq db) (map g_id (games db));
                  row = \<lparr>g_id = lastInsertRowid, g_playerId = pid, g_guessCount = guesses,
                         g_gameDate = gameDate, g_wordleNumber = wordleNumber,
                         g_eloChange = eloChange, g_eloBefore = eloBefore, g_eloAfter = eloAfter\<rparr>;
                  db' = db\<lparr>games := games db @ [row], games_seq := lastInsertRowid\<rparr>
              in (case getGameById db' lastInsertRowid of
                    None \<Rightarrow> Inl TypeErrorNull
                  | Some g \<Rightarrow> Inr g, db'))"

definition recordEloHistory :: "nat \<Rightarrow> real \<Rightarrow> string \<Rightarrow> database \<Rightarrow> database" where
  "recordEloHistory pid rating gameDate db =
     db\<lparr>elo_history := elo_history db @ [\<lparr>h_playerId = pid, h_elo = rating, h_gameDate = gameDate\<rparr>]\<rparr>"

text \<open>\<open>INSERT OR REPLACE\<close>: a row with the same (unique) date is deleted first.\<close>

definition saveDailySummary ::
  "string \<Rightarrow> nat \<Rightarrow> nat option \<Rightarrow> nat option \<Rightarrow> int option \<Rightarrow> database \<Rightarrow> database" where
  "saveDailySummary gameDate participantsCount highest lowest wordleNumber db =
     db\<lparr>daily_summaries :=
          filter (\<lambda>s. s_gameDate s \<noteq> gameDate) (daily_summaries db)
          @ [\<lparr>s_gameDate = gameDate, s_wordleNumber = wordleNumber,
               s_participantsCount = participantsCount,
               s_highestEloPlayerId = highest, s_lowestEloPlayerId = lowest\<rparr>]\<rparr>"

definition isDailyResultsProcessed :: "database \<Rightarrow> string \<Rightarrow> bool" where
  "isDailyResultsProcessed db gameDate =
     (length (filter (\<lambda>s. s_gameDate s = gameDate) (daily_summaries db)) > 0)"

definition incrementInactiveDays :: "nat \<Rightarrow> database \<Rightarrow> database" where
  "incrementInactiveDays pid db =
     db\<lparr>players := map (\<lambda>p. if pl_id p = pid
              then p\<lparr>consecutiveInactiveDays := consecutiveInactiveDays p + 1\<rparr> else p) (players db)\<rparr>"

definition markPlayerInactive :: "nat \<Rightarrow> database \<Rightarrow> database" where
  "markPlayerInactive pid db =
     db\<lparr>players := map (\<lambda>p. if pl_id p = pid then p\<lparr>isActive := False\<rparr> else p) (players db)\<rparr>"

definition getPlayersWhoDidntPlay :: "database \<Rightarrow> string \<Rightarrow> Player list" where
  "getPlayersWhoDidntPlay db gameDate =
     filter (\<lambda>p. pl_id p \<notin> set (map g_playerId (filter (\<lambda>g. g_gameDate g = gameDate) (games db))))
            (players db)"

definition max_elo :: "Player list \<Rightarrow> real" where
  "max_elo ps = fold max (map elo (tl ps)) (elo (hd ps))"

definition min_elo :: "Player list \<Rightarrow> real" where
  "min_elo ps = fold min (map elo (tl ps)) (elo (hd ps))"

text \<open>On an empty selection SQL's MAX and MIN are NULL and no row compares equal.\<close>

definition getHighestEloPlayers :: "database \<Rightarrow> Player list" where
  "getHighestEloPlayers db =
     (let active = filter isActive (players db)
      in if active = [] then [] else filter (\<lambda>p. elo p = max_elo active) active)"

definition getLowestEloPlayers :: "database \<Rightarrow> Player list" where
  "getLowestEloPlayers db =
     (let ranked = filter (\<lambda>p. isActive p \<and> totalGames p > 0) (players db)
      in if ranked = [] then [] else filter (\<lambda>p. elo p = min_elo ranked) ranked)"

section \<open>Processing one day (eloService.ts, activityService.ts, events/messageCreate.ts)\<close>

record ParsedPlayerResult =
  r_discordId :: string
  r_username :: string
  r_guessCount :: int
  r_hasCrown :: bool

record PlayerData =
  d_discordId :: string
  d_guessCount :: int
  d_previousElo :: real
  d_hasCrown :: bool

record EloCalculationResult =
  c_playerId :: nat
  c_discordId :: string
  previousElo :: real
  newElo :: real
  eloChange :: real
  c_guessCount :: int

type_synonym playerMap = "nat \<rightharpoonup> PlayerData"

text \<open>
  The first loop of \<open>processDailyResults\<close>: get or create the player, skip the result
  when the player has a game on that date, otherwise push the participant and set the
  map entry. A throw ends the loop with the store as it is at that moment.
\<close>

fun collect_participants ::
  "ParsedPlayerResult list \<Rightarrow> string \<Rightarrow> EloConfig \<Rightarrow> participant list \<Rightarrow> playerMap \<Rightarrow> database
     \<Rightarrow> (error + participant list \<times> playerMap) \<times> database" where
  "collect_participants [] gameDate config participants pmap db = (Inr (participants, pmap), db)"
| "collect_participants (result # rest) gameDate config participants pmap db =
     (case getOrCreatePlayer \<lparr>cp_discordId = r_discordId result, cp_username = r_username result,
                               cp_discriminator = ''0''\<rparr> (defaultRating config) db of
        (Inl e, db') \<Rightarrow> (Inl e, db')
      | (Inr player, db') \<Rightarrow>
          if hasGameRecord db' (pl_id player) gameDate
          then collect_participants rest gameDate config participants pmap db'
          else collect_participants rest gameDate config
                 (participants @ [\<lparr>playerId = pl_id player, currentElo = elo player,
                                    guessCount = r_guessCount result\<rparr>])
                 (pmap(pl_id player \<mapsto> \<lparr>d_discordId = r_discordId result,
                                         d_guessCount = r_guessCount result,
                                         d_previousElo = elo player,
                                         d_hasCrown = r_hasCrown result\<rparr>))
                 db')"

text \<open>
  The second loop: for each participant the player row is updated, the game and the
  history sample are recorded and the result is pushed.
\<close>

fun apply_changes ::
  "participant list \<Rightarrow> playerMap \<Rightarrow> changes \<Rightarrow> string \<Rightarrow> int option \<Rightarrow> EloCalculationResult list
     \<Rightarrow> database \<Rightarrow> (error + EloCalculationResult list) \<times> database" where
  "apply_changes [] pmap eloChanges gameDate wordleNumber calculationResults db =
     (Inr calculationResults, db)"
| "apply_changes (p # rest) pmap eloChanges gameDate wordleNumber calculationResults db =
     (case pmap (playerId p) of
        None \<Rightarrow> (Inl TypeErrorNull, db)
      | Some playerData \<Rightarrow>
          let change = get_or0 eloChanges (playerId p);
              newRating = currentElo p + change;
              db1 = updatePlayerAfterGame (playerId p) (d_guessCount playerData) newRating gameDate
                      (d_hasCrown playerData) db
          in (case recordGame (playerId p) (d_guessCount playerData) gameDate (currentElo p)
                     newRating wordleNumber db1 of
                (Inl e, db2) \<Rightarrow> (Inl e, db2)
              | (Inr g, db2) \<Rightarrow>
                  apply_changes rest pmap eloChanges gameDate wordleNumber
                    (calculationResults @ [\<lparr>c_playerId = playerId p,
                        c_discordId = d_discordId playerData, previousElo = currentElo p,
                        newElo = newRating, eloChange = change,
                        c_guessCount = d_guessCount playerData\<rparr>])
                    (recordEloHistory (playerId p) newRating gameDate db2)))"

definition processDailyResults ::
  "ParsedPlayerResult list \<Rightarrow> string \<Rightarrow> EloConfig \<Rightarrow> int option \<Rightarrow> database
     \<Rightarrow> (error + EloCalculationResult list) \<times> database" where
  "processDailyResults results gameDate config wordleNumber db =
     (case collect_participants results gameDate config [] Map.empty db of
        (Inl e, db') \<Rightarrow> (Inl e, db')
      | (Inr (participants, pmap), db') \<Rightarrow>
          if length participants = 0 then (Inr [], db')
          else apply_changes participants pmap (calculatePairwiseElo participants config)
                 gameDate wordleNumber [] db')"

text \<open>\<open>updatePlayerActivity\<close>: the rows are selected once, then updated one by one.\<close>

fun activity_loop :: "Player list \<Rightarrow> int \<Rightarrow> database \<Rightarrow> database" where
  "activity_loop [] inactivityThreshold db = db"
| "activity_loop (player # rest) inactivityThreshold db =
     (let db1 = incrementInactiveDays (pl_id player) db;
          newInactiveDays = consecutiveInactiveDays player + 1
      in activity_loop rest inactivityThreshold
           (if newInactiveDays \<ge> inactivityThreshold \<and> isActive player
            then markPlayerInactive (pl_id player) db1 else db1))"

definition updatePlayerActivity :: "string \<Rightarrow> int \<Rightarrow> database \<Rightarrow> database" where
  "updatePlayerActivity gameDate inactivityThreshold db =
     activity_loop (getPlayersWhoDidntPlay db gameDate) inactivityThreshold db"

record DailyResults =
  gameDate :: string
  wordleNumber :: "int option"
  results :: "ParsedPlayerResult list"

record BotConfig =
  elo_config :: EloConfig
  inactivityThreshold :: int

text \<open>
  The message handler. Its input is what the gateway and the resolver hand over: whether
  the author is this bot, whether it is the Wordle bot, and the value of
  \<open>parseAndResolveWordleMessage\<close> (Discord lookups, no access to the store).
  \<open>updateRoles\<close> and the reply act on Discord only. The \<open>catch\<close> logs the error.
\<close>

record incoming =
  from_self :: bool
  from_wordle_bot :: bool
  parsed :: "DailyResults option"

datatype outcome =
  Ignored | NotParseable | Skipped | NoCalculations | Failed error | Done nat

definition handle_message :: "incoming \<Rightarrow> BotConfig \<Rightarrow> database \<Rightarrow> outcome \<times> database" where
  "handle_message message config db =
     (if from_self message then (Ignored, db)
      else if \<not> from_wordle_bot message then (Ignored, db)
      else case parsed message of
        None \<Rightarrow> (NotParseable, db)
      | Some dailyResults \<Rightarrow>
          if isDailyResultsProcessed db (gameDate dailyResults) then (Skipped, db)
          else (case processDailyResults (results dailyResults) (gameDate dailyResults)
                       (elo_config config) (wordleNumber dailyResults) db of
                  (Inl e, db1) \<Rightarrow> (Failed e, db1)
                | (Inr eloResults, db1) \<Rightarrow>
                    if length eloResults = 0 then (NoCalculations, db1)
                    else let db2 = updatePlayerActivity (gameDate dailyResults)
                                     (inactivityThreshold config) db1;
                             highestPlayers = getHighestEloPlayers db2;
                             lowestPlayers = getLowestEloPlayers db2
                         in (Done (length eloResults),
                             saveDailySummary (gameDate dailyResults) (length eloResults)
                               (map_option pl_id (if highestPlayers = [] then None else Some (hd highestPlayers)))
                               (map_option pl_id (if lowestPlayers = [] then None else Some (hd lowestPlayers)))
                               (wordleNumber dailyResults) db2)))"

section \<open>Result extraction (services/messageParser.ts)\<close>

text \<open>
  A JavaScript string is its sequence of UTF-16 code units; the regular expressions of
  the source carry no \<open>u\<close> flag, so they match code units, and the match positions the
  source compares are code unit indices. \<open>js\<close> embeds an ASCII literal.
\<close>

type_synonym jsstring = "nat list"

definition js :: "string \<Rightarrow> jsstring" where
  "js s = map of_char s"

text \<open>The crown emoji U+1F451 is the surrogate pair D83D DC51.\<close>

definition crown :: jsstring where
  "crown = [0xD83D, 0xDC51]"

definition is_line_terminator :: "nat \<Rightarrow> bool" where
  "is_line_terminator c \<longleftrightarrow> c = 0x0A \<or> c = 0x0D \<or> c = 0x2028 \<or> c = 0x2029"

text \<open>The class \<open>\s\<close>: white space and line terminators.\<close>

definition is_space :: "nat \<Rightarrow> bool" where
  "is_space c \<longleftrightarrow>
     c = 0x09 \<or> c = 0x0B \<or> c = 0x0C \<or> c = 0x20 \<or> c = 0xA0 \<or> c = 0x1680
     \<or> (0x2000 \<le> c \<and> c \<le> 0x200A) \<or> c = 0x202F \<or> c = 0x205F \<or> c = 0x3000
     \<or> c = 0xFEFF \<or> is_line_terminator c"

definition is_digit :: "nat \<Rightarrow> bool" where
  "is_digit c \<longleftrightarrow> 0x30 \<le> c \<and> c \<le> 0x39"

text \<open>The class \<open>\w\<close>: ASCII letters, digits and the underscore.\<close>

definition is_word :: "nat \<Rightarrow> bool" where
  "is_word c \<longleftrightarrow> is_digit c \<or> (0x41 \<le> c \<and> c \<le> 0x5A) \<or> (0x61 \<le> c \<and> c \<le> 0x7A) \<or> c = 0x5F"

text \<open>
  The tail \<open>\s*(.+)$\<close> of the row pattern. \<open>\s*\<close> is greedy and \<open>.+\<close> has to reach
  the end of the input without a line terminator: the group is what follows the leading
  white space when that is not empty; when the rest is white space only, backtracking
  hands the last character to the group.
\<close>

definition players_group :: "jsstring \<Rightarrow> jsstring option" where
  "players_group rest =
     (let tail = dropWhile is_space rest
      in if tail \<noteq> [] then (if list_ex is_line_terminator tail then None else Some tail)
         else if rest \<noteq> [] \<and> \<not> is_line_terminator (last rest) then Some [last rest]
         else None)"

text \<open>
  \<open>/^(?:\<dots>\s*)?([1-6x])\/6:\s*(.+)$/i\<close> with the crown in the optional group: the
  guess character (with the \<open>i\<close> flag also an upper case X) and the players section.
\<close>

definition match_row :: "jsstring \<Rightarrow> (nat \<times> jsstring) option" where
  "match_row row =
     (let after = (if take 2 row = crown then dropWhile is_space (drop 2 row) else row)
      in case after of
           g # slash # six # colon # rest \<Rightarrow>
             if ((0x31 \<le> g \<and> g \<le> 0x36) \<or> g = 0x78 \<or> g = 0x58)
                \<and> slash = 0x2F \<and> six = 0x36 \<and> colon = 0x3A
             then map_option (\<lambda>section. (g, section)) (players_group rest)
             else None
         | _ \<Rightarrow> None)"

text \<open>\<open>guessStr === 'x' ? 7 : parseInt(guessStr, 10)\<close> after \<open>toLowerCase\<close>.\<close>

definition guess_of :: "nat \<Rightarrow> int" where
  "guess_of g = (if g = 0x78 \<or> g = 0x58 then 7 else int g - 0x30)"

text \<open>
  \<open>/<@!?(\d+)>/\<close> tried at the start of a string: the captured identifier and the
  length of the match.
\<close>

definition match_mention :: "jsstring \<Rightarrow> (jsstring \<times> nat) option" where
  "match_mention s =
     (case s of
        c0 # c1 # r \<Rightarrow>
          if c0 = 0x3C \<and> c1 = 0x40
          then let bang = (if r \<noteq> [] \<and> hd r = 0x21 then 1 else 0);
                   r' = drop bang r;
                   ident = takeWhile is_digit r';
                   after = dropWhile is_digit r'
               in if ident \<noteq> [] \<and> after \<noteq> [] \<and> hd after = 0x3E
                  then Some (ident, 2 + bang + length ident + 1) else None
          else None
      | _ \<Rightarrow> None)"

text \<open>\<open>/@(\w+)/\<close> tried at the start of a string: the captured name and the length.\<close>

definition match_username :: "jsstring \<Rightarrow> (jsstring \<times> nat) option" where
  "match_username s =
     (case s of
        c0 # r \<Rightarrow>
          if c0 = 0x40 \<and> takeWhile is_word r \<noteq> []
          then Some (takeWhile is_word r, 1 + length (takeWhile is_word r)) else None
      | _ \<Rightarrow> None)"

text \<open>
  A \<open>while ((m = regex.exec(s)) !== null)\<close> loop with a global pattern: the leftmost
  match at or after \<open>lastIndex\<close>, then \<open>lastIndex\<close> moves to its end. \<open>i\<close> is the
  index of the head of the remaining input, \<open>skip\<close> the number of characters still
  covered by the previous match. Each match is reported with its capture, its
  \<open>index\<close> and \<open>index + length\<close>.
\<close>

fun exec_loop :: "(jsstring \<Rightarrow> (jsstring \<times> nat) option) \<Rightarrow> nat \<Rightarrow> nat \<Rightarrow> jsstring
    \<Rightarrow> (jsstring \<times> nat \<times> nat) list" where
  "exec_loop m i skip [] = []"
| "exec_loop m i skip (c # cs) =
     (if skip > 0 then exec_loop m (i + 1) (skip - 1) cs
      else case m (c # cs) of
             Some (capture, len) \<Rightarrow> (capture, i, i + len) # exec_loop m (i + 1) (len - 1) cs
           | None \<Rightarrow> exec_loop m (i + 1) 0 cs)"

record player_ref =
  ref_discordId :: "jsstring option"
  ref_username :: jsstring

record ParsedRow =
  row_guessCount :: int
  row_players :: "player_ref list"

definition isInsideMention :: "(nat \<times> nat) list \<Rightarrow> nat \<Rightarrow> nat \<Rightarrow> bool" where
  "isInsideMention mentionPositions matchStart matchEnd =
     list_ex (\<lambda>(start, stop). matchStart \<ge> start \<and> matchEnd \<le> stop) mentionPositions"

definition parseResultRow :: "jsstring \<Rightarrow> ParsedRow option" where
  "parseResultRow row =
     (case match_row row of
        None \<Rightarrow> None
      | Some (guessStr, playersSection) \<Rightarrow>
          let mentions = exec_loop match_mention 0 0 playersSection;
              mentionPositions = map (\<lambda>(ident, start, stop). (start, stop)) mentions;
              usernames = exec_loop match_username 0 0 playersSection;
              players =
                map (\<lambda>(ident, start, stop). \<lparr>ref_discordId = Some ident, ref_username = []\<rparr>) mentions
                @ map (\<lambda>(name, start, stop). \<lparr>ref_discordId = None, ref_username = name\<rparr>)
                    (filter (\<lambda>(name, start, stop). \<not> isInsideMention mentionPositions start stop)
                       usernames)
          in if length players = 0 then None
             else Some \<lparr>row_guessCount = guess_of guessStr, row_players = players\<rparr>)"

section \<open>The game date (parseWordleMessage)\<close>













































section \<open>Notions used to state and prove the properties\<close>

text \<open>
  The definitions of this section are not code of the repository. They name what the
  theorems speak about: closed forms of what the loops compute, views of the store, the
  example inputs of the witnesses, and two notions worded after the specification.
\<close>

subsection \<open>Rating engine\<close>

text \<open>
  \<open>contribution k p q\<close> is the change that the matchup of \<open>p\<close> and \<open>q\<close> adds
  to \<open>p\<close>'s entry; \<open>total_for k ps x\<close> is the sum the map holds for player id
  \<open>x\<close> before rounding.
\<close>

definition contribution :: "real \<Rightarrow> participant \<Rightarrow> participant \<Rightarrow> real" where
  "contribution k p q =
     k * (fst (determineMatchResult (guessCount p) (guessCount q))
          - calculateExpectedScore (currentElo p) (currentElo q))"


text \<open>
  \<open>exchange_inputs i j ps\<close> exchanges the (currentElo, guessCount) pairs of the
  participants at positions \<open>i\<close> and \<open>j\<close>; every player id stays in place.
\<close>

definition exchange_inputs :: "nat \<Rightarrow> nat \<Rightarrow> participant list \<Rightarrow> participant list" where
  "exchange_inputs i j ps =
     ps[i := (ps ! i)\<lparr>currentElo := currentElo (ps ! j), guessCount := guessCount (ps ! j)\<rparr>,
        j := (ps ! j)\<lparr>currentElo := currentElo (ps ! i), guessCount := guessCount (ps ! i)\<rparr>]"



text \<open>Scenario A of the specification, the default configuration, a round with a fractional K-factor.\<close>

definition scenario_A :: "participant list" where
  "scenario_A =
     [\<lparr>playerId = 1, currentElo = 1000, guessCount = 2\<rparr>,
      \<lparr>playerId = 2, currentElo = 1000, guessCount = 3\<rparr>,
      \<lparr>playerId = 3, currentElo = 1000, guessCount = 4\<rparr>,
      \<lparr>playerId = 4, currentElo = 1000, guessCount = 5\<rparr>]"

definition default_config :: EloConfig where
  "default_config = \<lparr>kFactor = 32, defaultRating = 1000\<rparr>"


subsection \<open>Store and pipeline\<close>

text \<open>
  \<open>start_rating db config pid\<close>: the rating of player \<open>pid\<close> in store \<open>db\<close>, or
  the default rating when the store has no such player (the run will create the row
  with it). \<open>rating_inv\<close> is the invariant of the first loop of
  \<open>processDailyResults\<close>.
\<close>

definition start_rating :: "database \<Rightarrow> EloConfig \<Rightarrow> nat \<Rightarrow> real" where
  "start_rating db config pid =
     (case getPlayerById db pid of Some p \<Rightarrow> elo p | None \<Rightarrow> defaultRating config)"

definition rating_inv :: "database \<Rightarrow> EloConfig \<Rightarrow> database \<Rightarrow> bool" where
  "rating_inv db0 cfg db \<longleftrightarrow>
     distinct (map pl_id (players db)) \<and> (\<forall>i. start_rating db cfg i = start_rating db0 cfg i)"

text \<open>
  What the store holds for one player: the player rows with the username blanked, the
  game records and the ELO history rows.
\<close>

definition rows_sans_username :: "database \<Rightarrow> nat \<Rightarrow> Player list" where
  "rows_sans_username db i = map (\<lambda>p. p\<lparr>username := []\<rparr>) (filter (\<lambda>p. pl_id p = i) (players db))"

definition games_of :: "database \<Rightarrow> nat \<Rightarrow> GameRecord list" where
  "games_of db i = filter (\<lambda>g. g_playerId g = i) (games db)"

definition history_of :: "database \<Rightarrow> nat \<Rightarrow> EloHistoryRow list" where
  "history_of db i = filter (\<lambda>h. h_playerId h = i) (elo_history db)"

text \<open>
  An example store: alice has played on 2024-01-01 and that date has its summary, bob has
  not played, carol is unknown. The announcement names alice under a new username.
\<close>

definition alice_row :: Player where
  "alice_row = \<lparr>pl_id = 1, discordId = ''111'', username = ''al'', discriminator = ''0'',
     elo = 1000, totalGames = 1, totalWins = 1, totalCrowns = 0, totalGuesses = 3,
     lastPlayed = Some ''2024-01-01'', consecutiveInactiveDays = 0, isActive = True\<rparr>"

definition bob_row :: Player where
  "bob_row = \<lparr>pl_id = 2, discordId = ''222'', username = ''bob'', discriminator = ''0'',
     elo = 1000, totalGames = 0, totalWins = 0, totalCrowns = 0, totalGuesses = 0,
     lastPlayed = None, consecutiveInactiveDays = 0, isActive = True\<rparr>"

definition example_db :: database where
  "example_db = \<lparr>players = [alice_row, bob_row], players_seq = 2,
     games = [\<lparr>g_id = 1, g_playerId = 1, g_guessCount = 3, g_gameDate = ''2024-01-01'',
               g_wordleNumber = None, g_eloChange = 0, g_eloBefore = 1000, g_eloAfter = 1000\<rparr>],
     games_seq = 1, elo_history = [\<lparr>h_playerId = 1, h_elo = 1000, h_gameDate = ''2024-01-01''\<rparr>],
     daily_summaries = [\<lparr>s_gameDate = ''2024-01-01'', s_wordleNumber = None,
               s_participantsCount = 1, s_highestEloPlayerId = Some 1,
               s_lowestEloPlayerId = Some 1\<rparr>]\<rparr>"

definition alice_result :: ParsedPlayerResult where
  "alice_result = \<lparr>r_discordId = ''111'', r_username = ''alice'', r_guessCount = 3, r_hasCrown = False\<rparr>"

definition bob_result :: ParsedPlayerResult where
  "bob_result = \<lparr>r_discordId = ''222'', r_username = ''bob'', r_guessCount = 3, r_hasCrown = True\<rparr>"

definition carol_result :: ParsedPlayerResult where
  "carol_result = \<lparr>r_discordId = ''333'', r_username = ''carol'', r_guessCount = 4, r_hasCrown = False\<rparr>"

definition example_message :: incoming where
  "example_message = \<lparr>from_self = False, from_wordle_bot = True,
     parsed = Some \<lparr>gameDate = ''2024-01-01'', wordleNumber = None,
                     results = [alice_result, bob_result]\<rparr>\<rparr>"

definition example_calc :: "EloCalculationResult list" where
  "example_calc =
     [\<lparr>c_playerId = 2, c_discordId = ''222'', previousElo = 1000, newElo = 1016, eloChange = 16,
       c_guessCount = 3\<rparr>,
      \<lparr>c_playerId = 3, c_discordId = ''333'', previousElo = 1000, newElo = 984, eloChange = - 16,
       c_guessCount = 4\<rparr>]"

subsection \<open>Result extraction\<close>

text \<open>
  The player entry of a mention, the spans of a list of matches, and what a mention
  embeds: a non-empty string of digits.
\<close>

definition mention_player :: "jsstring \<Rightarrow> player_ref" where
  "mention_player ident = \<lparr>ref_discordId = Some ident, ref_username = []\<rparr>"







subsection \<open>Game date\<close>








section \<open>Properties of the rating engine\<close>


lemma get_or0_upd [simp]: "get_or0 (m(a \<mapsto> v)) x = (if x = a then v else get_or0 m x)"
  by (simp add: get_or0_def)




lemma contribution_self [simp]: "contribution k p p = 0"
  by (simp add: contribution_def determineMatchResult_def calculateExpectedScore_def)


lemma dom_init_changes: "dom (init_changes ps m) = dom m \<union> playerId ` set ps"
  by (induction ps arbitrary: m) auto



lemma Math_round_0 [simp]: "Math_round 0 = 0"
  by (simp add: Math_round_def)






















lemma exchange_inputs_length [simp]: "length (exchange_inputs i j ps) = length ps"
  by (simp add: exchange_inputs_def)








lemma scenario_A_deltas:
  "delta_of scenario_A default_config 1 = 16"
  "delta_of scenario_A default_config 2 = 5"
  "delta_of scenario_A default_config 3 = -5"
  "delta_of scenario_A default_config 4 = -16"
  by (simp_all add: delta_of_def calculatePairwiseElo_def scenario_A_def default_config_def
      matchup_def determineMatchResult_def calculateExpectedScore_def round_changes_def
      get_or0_def Math_round_def Let_def)







section \<open>Properties of the daily pipeline\<close>

lemma fold_max_ge: "(x::nat) \<in> set ids \<Longrightarrow> x \<le> fold max ids seq"
proof (induction ids arbitrary: seq)
  case Nil
  then show ?case by simp
next
  case (Cons a ids)
  have mono: "s \<le> fold max ids s" for s :: nat
    by (induction ids arbitrary: s) (auto intro: order_trans[OF max.cobounded2])
  show ?case
  proof (cases "x = a")
    case True
    have "a \<le> max a seq" by simp
    also have "\<dots> \<le> fold max ids (max a seq)" by (rule mono)
    finally show ?thesis using True by simp
  next
    case False
    with Cons.prems have "x \<in> set ids" by simp
    then show ?thesis by (simp add: Cons.IH)
  qed
qed

lemma next_rowid_fresh: "next_rowid seq ids \<notin> set ids"
proof
  assume "next_rowid seq ids \<in> set ids"
  then have "next_rowid seq ids \<le> fold max ids seq" by (rule fold_max_ge)
  then show False by (simp add: next_rowid_def)
qed

lemma next_rowid_fresh_map: "x \<in> set xs \<Longrightarrow> f x \<noteq> next_rowid seq (map f xs)"
proof -
  assume "x \<in> set xs"
  then have "f x \<in> set (map f xs)" by simp
  then show ?thesis using next_rowid_fresh[of seq "map f xs"] by metis
qed

lemma find_append_fresh:
  "\<forall>x\<in>set xs. \<not> P x \<Longrightarrow> P y \<Longrightarrow> find P (xs @ [y]) = Some y"
  by (induction xs) auto

lemma recordGame_cases:
  "recordGame pid n d b a w db = (r, db') \<Longrightarrow>
     (r = Inl SqliteConstraintUnique \<and> db' = db) \<or>
     (\<exists>row. r = Inr row \<and> g_eloChange row = a - b \<and> g_eloBefore row = b \<and> g_eloAfter row = a
            \<and> g_playerId row = pid \<and> g_gameDate row = d
            \<and> db' = db\<lparr>games := games db @ [row], games_seq := g_id row\<rparr>)"
proof -
  assume rg: "recordGame pid n d b a w db = (r, db')"
  show ?thesis
  proof (cases "\<exists>g \<in> set (games db). g_playerId g = pid \<and> g_gameDate g = d")
    case True
    with rg show ?thesis by (auto simp: recordGame_def Let_def)
  next
    case False
    let ?i = "next_rowid (games_seq db) (map g_id (games db))"
    let ?row = "\<lparr>g_id = ?i, g_playerId = pid, g_guessCount = n, g_gameDate = d, g_wordleNumber = w,
                 g_eloChange = a - b, g_eloBefore = b, g_eloAfter = a\<rparr>"
    have "\<forall>g\<in>set (games db). \<not> g_id g = ?i"
      by (simp add: next_rowid_fresh_map)
    then have "find (\<lambda>g. g_id g = ?i) (games db @ [?row]) = Some ?row"
      by (rule find_append_fresh) simp
    with rg False have "r = Inr ?row" "db' = db\<lparr>games := games db @ [?row], games_seq := ?i\<rparr>"
      by (auto simp: recordGame_def Let_def getGameById_def)
    then show ?thesis by (intro disjI2 exI[of _ ?row]) simp
  qed
qed

lemma find_append:
  "find P (xs @ ys) = (case find P xs of Some x \<Rightarrow> Some x | None \<Rightarrow> find P ys)"
  by (induction xs) auto

lemma find_map_same:
  "(\<And>x. P (f x) = P x) \<Longrightarrow> find P (map f xs) = map_option f (find P xs)"
  by (induction xs) auto

lemma find_key_fresh: "k \<notin> set (map f xs) \<Longrightarrow> find (\<lambda>y. f y = k) xs = None"
  by (induction xs) auto

lemma find_Some_mem: "find P xs = Some x \<Longrightarrow> x \<in> set xs \<and> P x"
  by (induction xs) (auto split: if_splits)

lemma find_distinct_key:
  "distinct (map f xs) \<Longrightarrow> x \<in> set xs \<Longrightarrow> find (\<lambda>y. f y = f x) xs = Some x"
proof (induction xs)
  case Nil
  then show ?case by simp
next
  case (Cons a xs)
  show ?case
  proof (cases "x = a")
    case True
    then show ?thesis by simp
  next
    case False
    with Cons.prems have xin: "x \<in> set xs" and "f a \<notin> f ` set xs" by simp_all
    then have "f a \<noteq> f x" by (metis imageI)
    with Cons xin show ?thesis by simp
  qed
qed

text \<open>What getOrCreatePlayer can do to the store.\<close>

lemma getOrCreatePlayer_cases:
  assumes "getOrCreatePlayer data delo db = (r, db')"
  shows "(\<exists>ex. getPlayerByDiscordId db (cp_discordId data) = Some ex
            \<and> r = Inr (ex\<lparr>username := cp_username data\<rparr>)
            \<and> (db' = db \<or> db' = updatePlayerUsername (pl_id ex) (cp_username data) db))
       \<or> (\<exists>row. r = Inr row \<and> elo row = delo \<and> pl_id row \<notin> set (map pl_id (players db))
            \<and> db' = db\<lparr>players := players db @ [row], players_seq := pl_id row\<rparr>)"
proof (cases "getPlayerByDiscordId db (cp_discordId data)")
  case (Some ex)
  with assms show ?thesis
    by (auto simp: getOrCreatePlayer_def split: if_splits)
next
  case None
  let ?i = "next_rowid (players_seq db) (map pl_id (players db))"
  let ?row = "\<lparr>pl_id = ?i, discordId = cp_discordId data,
                      username = cp_username data, discriminator = cp_discriminator data,
                      elo = delo, totalGames = 0, totalWins = 0, totalCrowns = 0,
                      totalGuesses = 0, lastPlayed = None, consecutiveInactiveDays = 0,
                      isActive = True\<rparr>"
  from None have nodup: "\<not> (\<exists>p \<in> set (players db). discordId p = cp_discordId data)"
    by (auto simp: getPlayerByDiscordId_def find_None_iff)
  have "\<forall>p\<in>set (players db). \<not> pl_id p = ?i"
    by (simp add: next_rowid_fresh_map)
  then have "find (\<lambda>p. pl_id p = ?i) (players db @ [?row]) = Some ?row"
    by (rule find_append_fresh) simp
  with assms None nodup have "r = Inr ?row"
      "db' = db\<lparr>players := players db @ [?row], players_seq := ?i\<rparr>"
    by (auto simp: getOrCreatePlayer_def createPlayer_def Let_def getPlayerById_def)
  moreover have "?i \<notin> set (map pl_id (players db))" by (rule next_rowid_fresh)
  ultimately show ?thesis by (intro disjI2 exI[of _ ?row]) simp
qed

lemma start_rating_updatePlayerUsername:
  "start_rating (updatePlayerUsername i n db) cfg j = start_rating db cfg j"
proof -
  let ?f = "\<lambda>p. if pl_id p = i then p\<lparr>username := n\<rparr> else p"
  have "find (\<lambda>p. pl_id p = j) (map ?f (players db)) = map_option ?f (find (\<lambda>p. pl_id p = j) (players db))"
    by (rule find_map_same) simp
  then show ?thesis
    by (cases "find (\<lambda>p. pl_id p = j) (players db)")
       (simp_all add: start_rating_def getPlayerById_def updatePlayerUsername_def)
qed

lemma start_rating_append_fresh:
  assumes "pl_id row \<notin> set (map pl_id (players db))" "elo row = defaultRating cfg"
  shows "start_rating (db\<lparr>players := players db @ [row], players_seq := s\<rparr>) cfg j = start_rating db cfg j"
proof (cases "find (\<lambda>p. pl_id p = j) (players db)")
  case None
  then show ?thesis using assms(2)
    by (simp add: start_rating_def getPlayerById_def find_append)
next
  case (Some p)
  then show ?thesis
    by (simp add: start_rating_def getPlayerById_def find_append)
qed

lemma ids_updatePlayerUsername [simp]:
  "map pl_id (players (updatePlayerUsername i n db)) = map pl_id (players db)"
  by (simp add: updatePlayerUsername_def comp_def if_distrib cong: if_cong)

lemma getOrCreatePlayer_rating_inv:
  assumes "rating_inv db0 cfg db" "getOrCreatePlayer data (defaultRating cfg) db = (Inr p, db')"
  shows "rating_inv db0 cfg db' \<and> elo p = start_rating db0 cfg (pl_id p)"
proof -
  from assms(1) have d: "distinct (map pl_id (players db))"
    and s: "\<And>i. start_rating db cfg i = start_rating db0 cfg i"
    by (simp_all add: rating_inv_def)
  from getOrCreatePlayer_cases[OF assms(2)]
  consider (existing) ex where "getPlayerByDiscordId db (cp_discordId data) = Some ex"
      "p = ex\<lparr>username := cp_username data\<rparr>"
      "db' = db \<or> db' = updatePlayerUsername (pl_id ex) (cp_username data) db"
    | (created) "elo p = defaultRating cfg" "pl_id p \<notin> set (map pl_id (players db))"
      "db' = db\<lparr>players := players db @ [p], players_seq := pl_id p\<rparr>"
    by auto
  then show ?thesis
  proof cases
    case existing
    from existing(1) have "ex \<in> set (players db)"
      by (simp add: getPlayerByDiscordId_def find_Some_mem)
    with d have "find (\<lambda>y. pl_id y = pl_id ex) (players db) = Some ex"
      by (rule find_distinct_key)
    then have "start_rating db cfg (pl_id ex) = elo ex"
      by (simp add: start_rating_def getPlayerById_def)
    with existing(2) s have "elo p = start_rating db0 cfg (pl_id p)" by simp
    moreover from existing(3) d s have "rating_inv db0 cfg db'"
      by (auto simp: rating_inv_def start_rating_updatePlayerUsername)
    ultimately show ?thesis by simp
  next
    case created
    from created(2) have "find (\<lambda>y. pl_id y = pl_id p) (players db) = None"
      by (rule find_key_fresh)
    then have "start_rating db cfg (pl_id p) = defaultRating cfg"
      by (simp add: start_rating_def getPlayerById_def)
    with created(1) s have "elo p = start_rating db0 cfg (pl_id p)" by simp
    moreover from created d s have "rating_inv db0 cfg db'"
      by (simp add: rating_inv_def start_rating_append_fresh)
    ultimately show ?thesis by simp
  qed
qed

lemma collect_participants_start_rating:
  assumes "rating_inv db0 cfg db"
    "\<forall>p\<in>set acc. currentElo p = start_rating db0 cfg (playerId p)"
    "collect_participants rs d cfg acc pm db = (Inr (ps, pm'), db')"
  shows "\<forall>p\<in>set ps. currentElo p = start_rating db0 cfg (playerId p)"
  using assms
proof (induction rs arbitrary: acc pm db)
  case Nil
  then show ?case by simp
next
  case (Cons r rs)
  let ?data = "\<lparr>cp_discordId = r_discordId r, cp_username = r_username r, cp_discriminator = ''0''\<rparr>"
  obtain res db1 where g: "getOrCreatePlayer ?data (defaultRating cfg) db = (res, db1)"
    by (cases "getOrCreatePlayer ?data (defaultRating cfg) db")
  show ?case
  proof (cases res)
    case (Inl e)
    with Cons.prems(3) g show ?thesis by simp
  next
    case (Inr player)
    with g Cons.prems(1) have inv: "rating_inv db0 cfg db1"
      and el: "elo player = start_rating db0 cfg (pl_id player)"
      using getOrCreatePlayer_rating_inv by blast+
    show ?thesis
    proof (cases "hasGameRecord db1 (pl_id player) d")
      case True
      with Cons.prems(3) g Inr
      have "collect_participants rs d cfg acc pm db1 = (Inr (ps, pm'), db')" by simp
      with Cons.IH[OF inv Cons.prems(2)] show ?thesis by simp
    next
      case False
      let ?acc = "acc @ [\<lparr>playerId = pl_id player, currentElo = elo player, guessCount = r_guessCount r\<rparr>]"
      from False Cons.prems(3) g Inr
      obtain pm1 where "collect_participants rs d cfg ?acc pm1 db1 = (Inr (ps, pm'), db')" by simp
      moreover from Cons.prems(2) el
      have "\<forall>p\<in>set ?acc. currentElo p = start_rating db0 cfg (playerId p)" by simp
      ultimately show ?thesis using Cons.IH[OF inv] by blast
    qed
  qed
qed

lemma games_updatePlayerAfterGame [simp]:
  "games (updatePlayerAfterGame i n e d c db) = games db"
  "elo_history (updatePlayerAfterGame i n e d c db) = elo_history db"
  by (simp_all add: updatePlayerAfterGame_def)

lemma games_recordEloHistory [simp]:
  "games (recordEloHistory i e d db) = games db"
  "players (recordEloHistory i e d db) = players db"
  by (simp_all add: recordEloHistory_def)

lemma recordGame_new_rows:
  assumes "recordGame pid n d b a w db = (r, db')"
  shows "\<forall>g\<in>set (games db'). g \<notin> set (games db) \<longrightarrow>
           g_eloChange g = a - b \<and> g_eloBefore g = b \<and> g_eloAfter g = a"
  using recordGame_cases[OF assms] by auto

lemma apply_changes_new_rows:
  "apply_changes ps pm ch d w acc db = (r, db') \<Longrightarrow>
     \<forall>g\<in>set (games db'). g \<notin> set (games db) \<longrightarrow> g_eloChange g = g_eloAfter g - g_eloBefore g"
proof (induction ps arbitrary: acc db)
  case Nil
  then show ?case by simp
next
  case (Cons p ps)
  show ?case
  proof (cases "pm (playerId p)")
    case None
    with Cons.prems show ?thesis by simp
  next
    case (Some pd)
    let ?new = "currentElo p + get_or0 ch (playerId p)"
    let ?db1 = "updatePlayerAfterGame (playerId p) (d_guessCount pd) ?new d (d_hasCrown pd) db"
    obtain rr db2 where rg: "recordGame (playerId p) (d_guessCount pd) d (currentElo p) ?new w ?db1 = (rr, db2)"
      by (cases "recordGame (playerId p) (d_guessCount pd) d (currentElo p) ?new w ?db1")
    from recordGame_new_rows[OF rg]
    have step: "\<forall>g\<in>set (games db2). g \<notin> set (games db) \<longrightarrow> g_eloChange g = g_eloAfter g - g_eloBefore g"
      by simp
    show ?thesis
    proof (cases rr)
      case (Inl e)
      with Cons.prems Some rg step show ?thesis by (simp add: Let_def)
    next
      case (Inr g)
      let ?acc = "acc @ [\<lparr>c_playerId = playerId p, c_discordId = d_discordId pd,
                previousElo = currentElo p, newElo = ?new, eloChange = get_or0 ch (playerId p),
                c_guessCount = d_guessCount pd\<rparr>]"
      from Cons.prems Some rg Inr
      have "apply_changes ps pm ch d w ?acc (recordEloHistory (playerId p) ?new d db2) = (r, db')"
        by (simp add: Let_def)
      from Cons.IH[OF this] step show ?thesis by auto
    qed
  qed
qed

lemma apply_changes_results:
  assumes "apply_changes ps pm ch d w acc db = (Inr calc, db')"
    "\<forall>c\<in>set acc. newElo c = previousElo c + eloChange c \<and> previousElo c = S (c_playerId c)
                  \<and> eloChange c = get_or0 ch (c_playerId c)"
    "\<forall>p\<in>set ps. currentElo p = S (playerId p)"
  shows "\<forall>c\<in>set calc. newElo c = previousElo c + eloChange c \<and> previousElo c = S (c_playerId c)
                  \<and> eloChange c = get_or0 ch (c_playerId c)"
  using assms
proof (induction ps arbitrary: acc db)
  case Nil
  then show ?case by simp
next
  case (Cons p ps)
  show ?case
  proof (cases "pm (playerId p)")
    case None
    with Cons.prems(1) show ?thesis by simp
  next
    case (Some pd)
    let ?new = "currentElo p + get_or0 ch (playerId p)"
    let ?db1 = "updatePlayerAfterGame (playerId p) (d_guessCount pd) ?new d (d_hasCrown pd) db"
    obtain rr db2 where rg: "recordGame (playerId p) (d_guessCount pd) d (currentElo p) ?new w ?db1 = (rr, db2)"
      by (cases "recordGame (playerId p) (d_guessCount pd) d (currentElo p) ?new w ?db1")
    show ?thesis
    proof (cases rr)
      case (Inl e)
      with Cons.prems(1) Some rg show ?thesis by (simp add: Let_def)
    next
      case (Inr g)
      let ?acc = "acc @ [\<lparr>c_playerId = playerId p, c_discordId = d_discordId pd,
                previousElo = currentElo p, newElo = ?new, eloChange = get_or0 ch (playerId p),
                c_guessCount = d_guessCount pd\<rparr>]"
      from Cons.prems(1) Some rg Inr
      have a: "apply_changes ps pm ch d w ?acc (recordEloHistory (playerId p) ?new d db2) = (Inr calc, db')"
        by (simp add: Let_def)
      from Cons.prems(2,3)
      have b: "\<forall>c\<in>set ?acc. newElo c = previousElo c + eloChange c \<and> previousElo c = S (c_playerId c)
                  \<and> eloChange c = get_or0 ch (c_playerId c)"
        by simp
      from Cons.prems(3) have c: "\<forall>p\<in>set ps. currentElo p = S (playerId p)" by simp
      from Cons.IH[OF a b c] show ?thesis .
    qed
  qed
qed

lemma getOrCreatePlayer_games:
  "getOrCreatePlayer data delo db = (r, db') \<Longrightarrow>
     games db' = games db \<and> elo_history db' = elo_history db \<and> daily_summaries db' = daily_summaries db"
  by (drule getOrCreatePlayer_cases) (auto simp: updatePlayerUsername_def)

lemma collect_participants_games:
  "collect_participants rs d cfg acc pm db = (r, db') \<Longrightarrow>
     games db' = games db \<and> elo_history db' = elo_history db"
proof (induction rs arbitrary: acc pm db)
  case Nil
  then show ?case by simp
next
  case (Cons x rs)
  let ?data = "\<lparr>cp_discordId = r_discordId x, cp_username = r_username x, cp_discriminator = ''0''\<rparr>"
  obtain res db1 where g: "getOrCreatePlayer ?data (defaultRating cfg) db = (res, db1)"
    by (cases "getOrCreatePlayer ?data (defaultRating cfg) db")
  from getOrCreatePlayer_games[OF g]
  have same: "games db1 = games db" "elo_history db1 = elo_history db" by simp_all
  show ?case
  proof (cases res)
    case (Inl e)
    with Cons.prems g same show ?thesis by simp
  next
    case (Inr player)
    show ?thesis
    proof (cases "hasGameRecord db1 (pl_id player) d")
      case True
      with Cons.prems g Inr have "collect_participants rs d cfg acc pm db1 = (r, db')" by simp
      from Cons.IH[OF this] same show ?thesis by simp
    next
      case False
      with Cons.prems g Inr obtain acc1 pm1 where
        "collect_participants rs d cfg acc1 pm1 db1 = (r, db')" by simp
      from Cons.IH[OF this] same show ?thesis by simp
    qed
  qed
qed

text \<open>
  Claim C10. In a store whose player ids are unique (the primary key), every
  calculation result returned by \<open>processDailyResults\<close> has
  \<open>newElo = previousElo + eloChange\<close> with \<open>previousElo\<close> the player's rating in
  the store at the start of the run (the default rating for a player created by the
  run); these start ratings are the \<open>currentElo\<close> values that
  \<open>calculatePairwiseElo\<close> receives and \<open>eloChange\<close> is its delta for the player.
  Every game row the run adds, and every row \<open>recordGame\<close> writes, stores
  \<open>elo_change = elo_after - elo_before\<close>.
\<close>

theorem ratings_against_start_of_round:
  assumes "distinct (map pl_id (players db))"
    "processDailyResults rs d cfg w db = (Inr calc, db')"
  shows "(\<forall>c\<in>set calc. newElo c = previousElo c + eloChange c
                       \<and> previousElo c = start_rating db cfg (c_playerId c))
       \<and> (\<exists>ps pm dbc. collect_participants rs d cfg [] Map.empty db = (Inr (ps, pm), dbc)
             \<and> (\<forall>p\<in>set ps. currentElo p = start_rating db cfg (playerId p))
             \<and> (\<forall>c\<in>set calc. eloChange c = delta_of ps cfg (c_playerId c)))
       \<and> (\<forall>g\<in>set (games db'). g \<notin> set (games db) \<longrightarrow> g_eloChange g = g_eloAfter g - g_eloBefore g)
       \<and> (\<forall>pid n gd b a wn dbx r dby. recordGame pid n gd b a wn dbx = (r, dby) \<longrightarrow>
             (\<forall>g\<in>set (games dby). g \<notin> set (games dbx) \<longrightarrow>
                 g_eloChange g = a - b \<and> g_eloBefore g = b \<and> g_eloAfter g = a))"
proof -
  obtain cr dbc where c: "collect_participants rs d cfg [] Map.empty db = (cr, dbc)"
    by (cases "collect_participants rs d cfg [] Map.empty db")
  from collect_participants_games[OF c] have g: "games dbc = games db" by simp
  have third: "\<forall>pid n gd b a wn dbx r dby. recordGame pid n gd b a wn dbx = (r, dby) \<longrightarrow>
             (\<forall>g\<in>set (games dby). g \<notin> set (games dbx) \<longrightarrow>
                 g_eloChange g = a - b \<and> g_eloBefore g = b \<and> g_eloAfter g = a)"
    using recordGame_new_rows by blast
  show ?thesis
  proof (cases cr)
    case (Inl e)
    with assms(2) c show ?thesis by (simp add: processDailyResults_def)
  next
    case (Inr pp)
    obtain ps pm where pp: "pp = (ps, pm)" by (cases pp)
    have inv: "rating_inv db cfg db" using assms(1) by (simp add: rating_inv_def)
    have start: "\<forall>p\<in>set ps. currentElo p = start_rating db cfg (playerId p)"
      using collect_participants_start_rating[OF inv _ c[unfolded Inr pp]] by simp
    show ?thesis
    proof (cases "length ps = 0")
      case True
      with assms(2) c Inr pp g third start show ?thesis by (auto simp: processDailyResults_def)
    next
      case False
      with assms(2) c Inr pp
      have a: "apply_changes ps pm (calculatePairwiseElo ps cfg) d w [] dbc = (Inr calc, db')"
        by (simp add: processDailyResults_def)
      from apply_changes_results[OF a _ start]
      have r: "\<forall>c\<in>set calc. newElo c = previousElo c + eloChange c
                       \<and> previousElo c = start_rating db cfg (c_playerId c)
                       \<and> eloChange c = delta_of ps cfg (c_playerId c)"
        by (simp add: delta_of_def)
      then have "\<exists>ps pm dbc. collect_participants rs d cfg [] Map.empty db = (Inr (ps, pm), dbc)
             \<and> (\<forall>p\<in>set ps. currentElo p = start_rating db cfg (playerId p))
             \<and> (\<forall>c\<in>set calc. eloChange c = delta_of ps cfg (c_playerId c))"
        using c Inr pp start by blast
      moreover from apply_changes_new_rows[OF a] g
      have "\<forall>g\<in>set (games db'). g \<notin> set (games db) \<longrightarrow> g_eloChange g = g_eloAfter g - g_eloBefore g"
        by simp
      ultimately show ?thesis using third r by simp
    qed
  qed
qed

text \<open>
  Claim C3. When a daily summary row exists for the game date of a parsed announcement
  of the Wordle bot, \<open>isDailyResultsProcessed\<close> is true and the handler returns the
  skipped outcome before \<open>processDailyResults\<close> is reached, with the store exactly
  as it was: no player update, no game record, no ELO history row, no daily summary.
\<close>

theorem processed_date_is_skipped:
  assumes "\<not> from_self message" "from_wordle_bot message" "parsed message = Some dailyResults"
    "\<exists>s\<in>set (daily_summaries db). s_gameDate s = gameDate dailyResults"
  shows "isDailyResultsProcessed db (gameDate dailyResults)
       \<and> handle_message message config db = (Skipped, db)"
proof -
  from assms(4) have "filter (\<lambda>s. s_gameDate s = gameDate dailyResults) (daily_summaries db) \<noteq> []"
    by (simp add: filter_empty_conv)
  then have "isDailyResultsProcessed db (gameDate dailyResults)"
    by (simp add: isDailyResultsProcessed_def)
  then show ?thesis using assms(1-3) by (simp add: handle_message_def)
qed

lemma rows_sans_username_update:
  "rows_sans_username (updatePlayerUsername j n db) i = rows_sans_username db i"
proof -
  have "map (\<lambda>p. p\<lparr>username := []\<rparr>) (filter (\<lambda>p. pl_id p = i)
          (map (\<lambda>p. if pl_id p = j then p\<lparr>username := n\<rparr> else p) xs))
        = map (\<lambda>p. p\<lparr>username := []\<rparr>) (filter (\<lambda>p. pl_id p = i) xs)" for xs
    by (induction xs) auto
  then show ?thesis by (simp add: rows_sans_username_def updatePlayerUsername_def)
qed

lemma getOrCreatePlayer_store_cases:
  assumes "getOrCreatePlayer data delo db = (r, db')"
  shows "db' = db \<or> (\<exists>j n. db' = updatePlayerUsername j n db)
       \<or> (\<exists>row. pl_id row \<notin> set (map pl_id (players db))
             \<and> db' = db\<lparr>players := players db @ [row], players_seq := pl_id row\<rparr>)"
  using getOrCreatePlayer_cases[OF assms] by blast

lemma getOrCreatePlayer_rows:
  assumes "i \<in> set (map pl_id (players db))" "getOrCreatePlayer data delo db = (r, db')"
  shows "rows_sans_username db' i = rows_sans_username db i \<and> i \<in> set (map pl_id (players db'))"
proof -
  from getOrCreatePlayer_store_cases[OF assms(2)]
  consider (same) "db' = db" | (renamed) j n where "db' = updatePlayerUsername j n db"
    | (created) row where "pl_id row \<notin> set (map pl_id (players db))"
      "db' = db\<lparr>players := players db @ [row], players_seq := pl_id row\<rparr>"
    by blast
  then show ?thesis
  proof cases
    case same
    with assms(1) show ?thesis by simp
  next
    case renamed
    with assms(1) show ?thesis by (simp add: rows_sans_username_update)
  next
    case created
    with assms(1) have "pl_id row \<noteq> i" by metis
    with created(2) assms(1) show ?thesis by (simp add: rows_sans_username_def)
  qed
qed

lemma collect_participants_rows:
  assumes "i \<in> set (map pl_id (players db))"
    "collect_participants rs d cfg acc pm db = (r, db')"
  shows "rows_sans_username db' i = rows_sans_username db i"
  using assms
proof (induction rs arbitrary: acc pm db)
  case Nil
  then show ?case by simp
next
  case (Cons x rs)
  let ?data = "\<lparr>cp_discordId = r_discordId x, cp_username = r_username x, cp_discriminator = ''0''\<rparr>"
  obtain res db1 where g: "getOrCreatePlayer ?data (defaultRating cfg) db = (res, db1)"
    by (cases "getOrCreatePlayer ?data (defaultRating cfg) db")
  from getOrCreatePlayer_rows[OF Cons.prems(1) g]
  have same: "rows_sans_username db1 i = rows_sans_username db i"
    and mem: "i \<in> set (map pl_id (players db1))" by simp_all
  show ?case
  proof (cases res)
    case (Inl e)
    with Cons.prems(2) g same show ?thesis by simp
  next
    case (Inr player)
    show ?thesis
    proof (cases "hasGameRecord db1 (pl_id player) d")
      case True
      with Cons.prems(2) g Inr have "collect_participants rs d cfg acc pm db1 = (r, db')" by simp
      from Cons.IH[OF mem this] same show ?thesis by simp
    next
      case False
      with Cons.prems(2) g Inr obtain acc1 pm1 where
        "collect_participants rs d cfg acc1 pm1 db1 = (r, db')" by simp
      from Cons.IH[OF mem this] same show ?thesis by simp
    qed
  qed
qed

lemma collect_participants_no_record:
  assumes "\<forall>p\<in>set acc. \<not> hasGameRecord db (playerId p) d"
    "collect_participants rs d cfg acc pm db = (Inr (ps, pm'), db')"
  shows "\<forall>p\<in>set ps. \<not> hasGameRecord db (playerId p) d"
  using assms
proof (induction rs arbitrary: acc pm db)
  case Nil
  then show ?case by simp
next
  case (Cons x rs)
  let ?data = "\<lparr>cp_discordId = r_discordId x, cp_username = r_username x, cp_discriminator = ''0''\<rparr>"
  obtain res db1 where g: "getOrCreatePlayer ?data (defaultRating cfg) db = (res, db1)"
    by (cases "getOrCreatePlayer ?data (defaultRating cfg) db")
  from getOrCreatePlayer_games[OF g] have h: "\<And>i. hasGameRecord db1 i d = hasGameRecord db i d"
    by (simp add: hasGameRecord_def)
  show ?case
  proof (cases res)
    case (Inl e)
    with Cons.prems(2) g show ?thesis by simp
  next
    case (Inr player)
    show ?thesis
    proof (cases "hasGameRecord db1 (pl_id player) d")
      case True
      with Cons.prems(2) g Inr
      have "collect_participants rs d cfg acc pm db1 = (Inr (ps, pm'), db')" by simp
      moreover from Cons.prems(1) h have "\<forall>p\<in>set acc. \<not> hasGameRecord db1 (playerId p) d" by simp
      ultimately have "\<forall>p\<in>set ps. \<not> hasGameRecord db1 (playerId p) d" by (rule Cons.IH[rotated])
      with h show ?thesis by simp
    next
      case False
      let ?acc = "acc @ [\<lparr>playerId = pl_id player, currentElo = elo player, guessCount = r_guessCount x\<rparr>]"
      from False Cons.prems(2) g Inr obtain pm1 where
        "collect_participants rs d cfg ?acc pm1 db1 = (Inr (ps, pm'), db')" by simp
      moreover from Cons.prems(1) h False
      have "\<forall>p\<in>set ?acc. \<not> hasGameRecord db1 (playerId p) d" by simp
      ultimately have "\<forall>p\<in>set ps. \<not> hasGameRecord db1 (playerId p) d" by (rule Cons.IH[rotated])
      with h show ?thesis by simp
    qed
  qed
qed

lemma filter_map_untouched:
  "(\<And>p. P (f p) = P p) \<Longrightarrow> (\<And>p. P p \<Longrightarrow> f p = p) \<Longrightarrow> filter P (map f xs) = filter P xs"
  by (induction xs) auto

lemma updatePlayerAfterGame_other:
  assumes "j \<noteq> i"
  shows "rows_sans_username (updatePlayerAfterGame j n e d c db) i = rows_sans_username db i"
proof -
  let ?f = "\<lambda>p. if pl_id p = j
                 then p\<lparr>elo := e,
                        totalGames := totalGames p + 1,
                        totalWins := totalWins p + (if n \<le> 6 then 1 else 0),
                        totalCrowns := totalCrowns p + (if c then 1 else 0),
                        totalGuesses := totalGuesses p + n,
                        lastPlayed := Some d,
                        consecutiveInactiveDays := 0,
                        isActive := True\<rparr>
                 else p"
  have "filter (\<lambda>p. pl_id p = i) (map ?f (players db)) = filter (\<lambda>p. pl_id p = i) (players db)"
  proof (rule filter_map_untouched)
    show "(pl_id (?f p) = i) = (pl_id p = i)" for p by (cases "pl_id p = j") simp_all
    show "pl_id p = i \<Longrightarrow> ?f p = p" for p using assms by (cases "pl_id p = j") simp_all
  qed
  moreover have "players (updatePlayerAfterGame j n e d c db) = map ?f (players db)"
    by (simp add: updatePlayerAfterGame_def Let_def)
  ultimately show ?thesis by (simp only: rows_sans_username_def)
qed

lemma recordGame_other:
  assumes "recordGame j n d b a w db = (r, db')" "j \<noteq> i"
  shows "games_of db' i = games_of db i \<and> players db' = players db \<and> elo_history db' = elo_history db"
  using recordGame_cases[OF assms(1)] assms(2) by (auto simp: games_of_def)

lemma apply_changes_other:
  assumes "\<forall>p\<in>set ps. playerId p \<noteq> i" "\<forall>c\<in>set acc. c_playerId c \<noteq> i"
    "apply_changes ps pm ch d w acc db = (r, db')"
  shows "rows_sans_username db' i = rows_sans_username db i \<and> games_of db' i = games_of db i
       \<and> history_of db' i = history_of db i \<and> (\<forall>calc. r = Inr calc \<longrightarrow> (\<forall>c\<in>set calc. c_playerId c \<noteq> i))"
  using assms
proof (induction ps arbitrary: acc db)
  case Nil
  then show ?case by auto
next
  case (Cons p ps)
  from Cons.prems(1) have pi: "playerId p \<noteq> i" and rest: "\<forall>p\<in>set ps. playerId p \<noteq> i" by simp_all
  show ?case
  proof (cases "pm (playerId p)")
    case None
    with Cons.prems(3) show ?thesis by auto
  next
    case (Some pd)
    let ?new = "currentElo p + get_or0 ch (playerId p)"
    let ?db1 = "updatePlayerAfterGame (playerId p) (d_guessCount pd) ?new d (d_hasCrown pd) db"
    obtain rr db2 where rg: "recordGame (playerId p) (d_guessCount pd) d (currentElo p) ?new w ?db1 = (rr, db2)"
      by (cases "recordGame (playerId p) (d_guessCount pd) d (currentElo p) ?new w ?db1")
    from recordGame_other[OF rg pi] updatePlayerAfterGame_other[OF pi]
    have step: "rows_sans_username db2 i = rows_sans_username db i" "games_of db2 i = games_of db i"
      "history_of db2 i = history_of db i"
      by (simp_all add: rows_sans_username_def games_of_def history_of_def)
    show ?thesis
    proof (cases rr)
      case (Inl e)
      with Cons.prems(3) Some rg step show ?thesis by (auto simp: Let_def)
    next
      case (Inr g)
      let ?acc = "acc @ [\<lparr>c_playerId = playerId p, c_discordId = d_discordId pd,
                previousElo = currentElo p, newElo = ?new, eloChange = get_or0 ch (playerId p),
                c_guessCount = d_guessCount pd\<rparr>]"
      let ?db3 = "recordEloHistory (playerId p) ?new d db2"
      from Cons.prems(3) Some rg Inr
      have a: "apply_changes ps pm ch d w ?acc ?db3 = (r, db')" by (simp add: Let_def)
      from Cons.prems(2) pi have b: "\<forall>c\<in>set ?acc. c_playerId c \<noteq> i" by simp
      from step pi have step3: "rows_sans_username ?db3 i = rows_sans_username db i"
        "games_of ?db3 i = games_of db i" "history_of ?db3 i = history_of db i"
        by (simp_all add: rows_sans_username_def games_of_def history_of_def recordEloHistory_def)
      from Cons.IH[OF rest b a] step3 show ?thesis by simp
    qed
  qed
qed

text \<open>
  Claim C4, as amended. For an input result whose player (the row found for its Discord
  id) already has a game record for the target date: the player's id is not in the
  participant list handed to \<open>calculatePairwiseElo\<close>, no returned calculation result
  carries it, and in the final store the player's game records, ELO history rows and
  player row are those of the initial store, except that \<open>getOrCreatePlayer\<close> may
  have refreshed the stored username. This holds whether the run returns or throws.
\<close>

theorem recorded_player_is_excluded:
  assumes "r \<in> set rs" "getPlayerByDiscordId db (r_discordId r) = Some p0"
    "hasGameRecord db (pl_id p0) d"
    "processDailyResults rs d cfg w db = (res, db')"
  shows "(\<forall>ps pm dbc. collect_participants rs d cfg [] Map.empty db = (Inr (ps, pm), dbc)
             \<longrightarrow> pl_id p0 \<notin> playerId ` set ps)
       \<and> (\<forall>calc. res = Inr calc \<longrightarrow> pl_id p0 \<notin> c_playerId ` set calc)
       \<and> rows_sans_username db' (pl_id p0) = rows_sans_username db (pl_id p0)
       \<and> games_of db' (pl_id p0) = games_of db (pl_id p0)
       \<and> history_of db' (pl_id p0) = history_of db (pl_id p0)"
proof -
  let ?i = "pl_id p0"
  obtain cr dbc where c: "collect_participants rs d cfg [] Map.empty db = (cr, dbc)"
    by (cases "collect_participants rs d cfg [] Map.empty db")
  from assms(2) have "p0 \<in> set (players db)"
    by (simp add: getPlayerByDiscordId_def find_Some_mem)
  then have mem: "?i \<in> set (map pl_id (players db))" by simp
  from collect_participants_rows[OF mem c] collect_participants_games[OF c]
  have cstep: "rows_sans_username dbc ?i = rows_sans_username db ?i"
    "games_of dbc ?i = games_of db ?i" "history_of dbc ?i = history_of db ?i"
    by (simp_all add: games_of_def history_of_def)
  show ?thesis
  proof (cases cr)
    case (Inl e)
    with assms(4) c cstep show ?thesis by (auto simp: processDailyResults_def)
  next
    case (Inr pp)
    obtain ps pm where pp: "pp = (ps, pm)" by (cases pp)
    from collect_participants_no_record[OF _ c[unfolded Inr pp]]
    have "\<forall>p\<in>set ps. \<not> hasGameRecord db (playerId p) d" by simp
    with assms(3) have excl: "\<forall>p\<in>set ps. playerId p \<noteq> ?i" by metis
    then have first: "\<forall>ps' pm' dbc'. collect_participants rs d cfg [] Map.empty db = (Inr (ps', pm'), dbc')
             \<longrightarrow> ?i \<notin> playerId ` set ps'"
      using c Inr pp by auto
    show ?thesis
    proof (cases "length ps = 0")
      case True
      with assms(4) c Inr pp cstep first show ?thesis by (auto simp: processDailyResults_def)
    next
      case False
      with assms(4) c Inr pp
      have a: "apply_changes ps pm (calculatePairwiseElo ps cfg) d w [] dbc = (res, db')"
        by (simp add: processDailyResults_def)
      from apply_changes_other[OF excl _ a] cstep first show ?thesis by auto
    qed
  qed
qed

text \<open>
  Claim C4 as stated (no write at all for such a player) fails when the announcement
  carries a new username: alice has a game on 2024-01-01, the run for that date returns
  no calculation, and her row's username has been rewritten from al to alice.
\<close>

theorem renamed_player_is_written:
  "getPlayerByDiscordId example_db (r_discordId alice_result) = Some alice_row
   \<and> hasGameRecord example_db (pl_id alice_row) ''2024-01-01''
   \<and> processDailyResults [alice_result] ''2024-01-01'' default_config None example_db
        = (Inr [], example_db\<lparr>players := [alice_row\<lparr>username := ''alice''\<rparr>, bob_row]\<rparr>)
   \<and> example_db\<lparr>players := [alice_row\<lparr>username := ''alice''\<rparr>, bob_row]\<rparr> \<noteq> example_db"
  by (simp add: processDailyResults_def getOrCreatePlayer_def getPlayerByDiscordId_def
      hasGameRecord_def updatePlayerUsername_def example_db_def alice_row_def bob_row_def
      alice_result_def default_config_def)

text \<open>
  Claim C4 as amended, at a run where alice is excluded and bob and carol are rated.
\<close>

theorem recorded_player_is_excluded_witness:
  "alice_result \<in> set [alice_result, bob_result, carol_result]
   \<and> getPlayerByDiscordId example_db (r_discordId alice_result) = Some alice_row
   \<and> hasGameRecord example_db (pl_id alice_row) ''2024-01-01''
   \<and> fst (processDailyResults [alice_result, bob_result, carol_result] ''2024-01-01''
             default_config None example_db) = Inr example_calc
   \<and> pl_id alice_row \<notin> c_playerId ` set example_calc
   \<and> rows_sans_username (snd (processDailyResults [alice_result, bob_result, carol_result]
         ''2024-01-01'' default_config None example_db)) (pl_id alice_row)
       = rows_sans_username example_db (pl_id alice_row)
   \<and> games_of (snd (processDailyResults [alice_result, bob_result, carol_result]
         ''2024-01-01'' default_config None example_db)) (pl_id alice_row)
       = games_of example_db (pl_id alice_row)
   \<and> history_of (snd (processDailyResults [alice_result, bob_result, carol_result]
         ''2024-01-01'' default_config None example_db)) (pl_id alice_row)
       = history_of example_db (pl_id alice_row)"
proof -
  let ?run = "processDailyResults [alice_result, bob_result, carol_result] ''2024-01-01''
                default_config None example_db"
  have h1: "alice_result \<in> set [alice_result, bob_result, carol_result]"
    by simp
  have h2: "getPlayerByDiscordId example_db (r_discordId alice_result) = Some alice_row"
    by (simp add: getPlayerByDiscordId_def example_db_def alice_row_def alice_result_def)
  have h3: "hasGameRecord example_db (pl_id alice_row) ''2024-01-01''"
    by (simp add: hasGameRecord_def example_db_def alice_row_def)
  have h4: "?run = (fst ?run, snd ?run)"
    by simp
  have run: "fst ?run = Inr example_calc"
    by (simp add: processDailyResults_def getOrCreatePlayer_def getPlayerByDiscordId_def
      createPlayer_def next_rowid_def getPlayerById_def hasGameRecord_def updatePlayerUsername_def
      calculatePairwiseElo_def matchup_def determineMatchResult_def calculateExpectedScore_def
      round_changes_def get_or0_def Math_round_def Let_def updatePlayerAfterGame_def recordGame_def
      getGameById_def recordEloHistory_def example_db_def alice_row_def bob_row_def alice_result_def
      bob_result_def carol_result_def default_config_def example_calc_def)
  from recorded_player_is_excluded[OF h1 h2 h3 h4]
  have "(\<forall>calc. fst ?run = Inr calc \<longrightarrow> pl_id alice_row \<notin> c_playerId ` set calc)
       \<and> rows_sans_username (snd ?run) (pl_id alice_row) = rows_sans_username example_db (pl_id alice_row)
       \<and> games_of (snd ?run) (pl_id alice_row) = games_of example_db (pl_id alice_row)
       \<and> history_of (snd ?run) (pl_id alice_row) = history_of example_db (pl_id alice_row)"
    by (rule conjunct2)
  with run have "pl_id alice_row \<notin> c_playerId ` set example_calc
       \<and> rows_sans_username (snd ?run) (pl_id alice_row) = rows_sans_username example_db (pl_id alice_row)
       \<and> games_of (snd ?run) (pl_id alice_row) = games_of example_db (pl_id alice_row)
       \<and> history_of (snd ?run) (pl_id alice_row) = history_of example_db (pl_id alice_row)"
    by blast
  with h1 h2 h3 run show ?thesis
    by blast
qed

text \<open>
  Claim C10 at the run that rates bob and the newly created carol.
\<close>

theorem ratings_against_start_of_round_witness:
  "distinct (map pl_id (players example_db))
   \<and> fst (processDailyResults [alice_result, bob_result, carol_result] ''2024-01-01''
             default_config None example_db) = Inr example_calc
   \<and> newElo (example_calc ! 0) = previousElo (example_calc ! 0) + eloChange (example_calc ! 0)
   \<and> previousElo (example_calc ! 0)
       = start_rating example_db default_config (c_playerId (example_calc ! 0))
   \<and> newElo (example_calc ! 1) = previousElo (example_calc ! 1) + eloChange (example_calc ! 1)
   \<and> previousElo (example_calc ! 1)
       = start_rating example_db default_config (c_playerId (example_calc ! 1))"
proof -
  let ?run = "processDailyResults [alice_result, bob_result, carol_result] ''2024-01-01''
                default_config None example_db"
  have h1: "distinct (map pl_id (players example_db))"
    by (simp add: example_db_def alice_row_def bob_row_def)
  have run: "fst ?run = Inr example_calc"
    by (simp add: processDailyResults_def getOrCreatePlayer_def getPlayerByDiscordId_def
      createPlayer_def next_rowid_def getPlayerById_def hasGameRecord_def updatePlayerUsername_def
      calculatePairwiseElo_def matchup_def determineMatchResult_def calculateExpectedScore_def
      round_changes_def get_or0_def Math_round_def Let_def updatePlayerAfterGame_def recordGame_def
      getGameById_def recordEloHistory_def example_db_def alice_row_def bob_row_def alice_result_def
      bob_result_def carol_result_def default_config_def example_calc_def)
  then have h2: "?run = (Inr example_calc, snd ?run)"
    by (simp add: prod_eq_iff)
  from ratings_against_start_of_round[OF h1 h2]
  have all: "\<forall>c\<in>set example_calc. newElo c = previousElo c + eloChange c
          \<and> previousElo c = start_rating example_db default_config (c_playerId c)"
    by (rule conjunct1)
  have "example_calc ! 0 \<in> set example_calc" "example_calc ! 1 \<in> set example_calc"
    by (simp_all add: example_calc_def)
  with all have "newElo (example_calc ! 0) = previousElo (example_calc ! 0) + eloChange (example_calc ! 0)
      \<and> previousElo (example_calc ! 0)
          = start_rating example_db default_config (c_playerId (example_calc ! 0))
      \<and> newElo (example_calc ! 1) = previousElo (example_calc ! 1) + eloChange (example_calc ! 1)
      \<and> previousElo (example_calc ! 1)
          = start_rating example_db default_config (c_playerId (example_calc ! 1))"
    by blast
  with h1 run show ?thesis
    by blast
qed

text \<open>
  Claim C3 at a store that holds a summary for 2024-01-01.
\<close>

theorem processed_date_is_skipped_witness:
  "\<not> from_self example_message \<and> from_wordle_bot example_message
   \<and> parsed example_message = Some \<lparr>gameDate = ''2024-01-01'', wordleNumber = None,
                                     results = [alice_result, bob_result]\<rparr>
   \<and> (\<exists>s\<in>set (daily_summaries example_db). s_gameDate s = ''2024-01-01'')
   \<and> handle_message example_message \<lparr>elo_config = default_config, inactivityThreshold = 3\<rparr> example_db
       = (Skipped, example_db)"
proof -
  let ?daily = "\<lparr>gameDate = ''2024-01-01'', wordleNumber = None, results = [alice_result, bob_result]\<rparr>"
  have h1: "\<not> from_self example_message"
    by (simp add: example_message_def)
  have h2: "from_wordle_bot example_message"
    by (simp add: example_message_def)
  have h3: "parsed example_message = Some ?daily"
    by (simp add: example_message_def)
  have h4: "\<exists>s\<in>set (daily_summaries example_db). s_gameDate s = gameDate ?daily"
    by (simp add: example_db_def)
  from processed_date_is_skipped[OF h1 h2 h3 h4]
  have "handle_message example_message \<lparr>elo_config = default_config, inactivityThreshold = 3\<rparr> example_db
       = (Skipped, example_db)"
    by (rule conjunct2)
  with h1 h2 h3 h4 show ?thesis
    by simp
qed

























text \<open>
  Claim C6. A row \<open>x/6:\<close> (or \<open>X/6:\<close>, the pattern is case insensitive) is parsed
  with guess count 7; with guess counts 7 and \<open>g\<close> in 1 to 6 \<open>determineMatchResult\<close>
  gives the failed participant 0 and the numeric opponent 1, whichever of the two comes
  first in the pair; two failed participants get one half each.
\<close>

theorem failed_sentinel_scores:
  "(\<forall>rest pr. parseResultRow (js ''x/6:'' @ rest) = Some pr \<longrightarrow> row_guessCount pr = 7)
   \<and> (\<forall>rest pr. parseResultRow (js ''X/6:'' @ rest) = Some pr \<longrightarrow> row_guessCount pr = 7)
   \<and> (\<forall>g \<in> {1..6}. determineMatchResult 7 g = (0, 1) \<and> determineMatchResult g 7 = (1, 0))
   \<and> determineMatchResult 7 7 = (1 / 2, 1 / 2)"
proof -
  have x: "row_guessCount pr = 7"
    if "parseResultRow (c # js ''/6:'' @ rest) = Some pr" "c = 0x78 \<or> c = 0x58" for c rest pr
  proof -
    from that(2) have nc: "take 2 (c # js ''/6:'' @ rest) \<noteq> crown"
      by (auto simp: crown_def js_def)
    from that(1) obtain g s where m: "match_row (c # js ''/6:'' @ rest) = Some (g, s)"
      by (cases "match_row (c # js ''/6:'' @ rest)") (auto simp: parseResultRow_def)
    with nc have "g = c"
      by (auto simp: match_row_def js_def split: if_splits)
    with that m show ?thesis
      by (auto simp: parseResultRow_def Let_def guess_of_def split: if_splits)
  qed
  have "js ''x/6:'' @ rest = 0x78 # js ''/6:'' @ rest" "js ''X/6:'' @ rest = 0x58 # js ''/6:'' @ rest" for rest
    by (simp_all add: js_def)
  with x show ?thesis
    by (simp add: determineMatchResult_def)
qed

text \<open>
  Claim C6 at the row \<open>x/6: <@123456789> (failed attempts)\<close> against a 6/6 player.
\<close>

theorem failed_sentinel_scores_witness:
  "parseResultRow (js ''x/6: <@123456789> (failed attempts)'')
     = Some \<lparr>row_guessCount = 7, row_players = [mention_player (js ''123456789'')]\<rparr>
   \<and> (6::int) \<in> {1..6}
   \<and> determineMatchResult 7 6 = (0, 1) \<and> determineMatchResult 6 7 = (1, 0)"
proof -
  have p: "parseResultRow (js ''x/6: <@123456789> (failed attempts)'')
     = Some \<lparr>row_guessCount = 7, row_players = [mention_player (js ''123456789'')]\<rparr>"
    by (simp add: parseResultRow_def match_row_def js_def crown_def players_group_def is_space_def
      is_line_terminator_def guess_of_def match_mention_def match_username_def is_digit_def
      is_word_def isInsideMention_def Let_def mention_player_def)
  have h: "(6::int) \<in> {1..6}"
    by simp
  from failed_sentinel_scores have "\<forall>g \<in> {1..6}. determineMatchResult 7 g = (0, 1) \<and> determineMatchResult g 7 = (1, 0)"
    by blast
  with h have "determineMatchResult 7 6 = (0, 1) \<and> determineMatchResult 6 7 = (1, 0)"
    by blast
  with p h show ?thesis
    by blast
qed

section \<open>Properties of the game date\<close>


























end
